theory Spec2Isabelle
  imports Complex_Main
begin

section \<open>Data model\<close>

text \<open>
  The documents of the three Mongoose collections the stock and billing handlers work on.
  Identifiers (ObjectIds) are natural numbers, stock counts are integers, money amounts are
  exact reals (the rounding of JavaScript doubles on fractions is outside the model).
  A product document keeps the fields the handlers read or write: \<open>name\<close>, \<open>price\<close>,
  \<open>stockCount\<close> and \<open>inStock\<close>.
\<close>

record product =
  name :: string
  price :: real
  stockCount :: int
  inStock :: bool

datatype role = Superadmin | Admin | User

record user =
  role :: role
  firstName :: string
  lastName :: string

datatype tx_type = IN | OUT | ADJUSTMENT

text \<open>
  Modelled from the spec: the InventoryTransaction schema (model/inventory) is not among the
  sources. The record has the fields the handlers pass to its constructor that the ledger
  properties are about, each of them a Number, so that a value which does not read as a
  number makes the record's save fail; a transaction is appended to the log and never
  changed. The free-text and actor fields (reason, reference, notes, performedBy) are left
  out.
\<close>

record inventory_transaction =
  tx_product :: nat
  tx_type :: tx_type
  tx_quantity :: int
  previousStock :: int
  newStock :: int

record bill_item =
  item_product :: nat
  item_quantity :: int
  unitPrice :: real
  totalPrice :: real

datatype bill_status = PENDING | PAID | OVERDUE | CANCELLED

text \<open>
  A bill document. \<open>billNumber\<close> is absent until one is set; \<open>bill_total\<close> is absent when
  the value given for it is not a number (NaN), which Mongoose refuses to cast.
\<close>

record bill =
  billNumber :: "string option"
  adminId :: nat
  items :: "bill_item list"
  subtotal :: real
  tax :: real
  discount :: real
  bill_total :: "real option"
  status :: bill_status
  dueDate :: nat
  generatedBy :: nat

text \<open>
  The database: products and users by identifier, the transaction log in insertion order,
  and the bills in insertion order; a bill's identifier is its position in that list.
\<close>

record state =
  products :: "nat \<rightharpoonup> product"
  users :: "nat \<rightharpoonup> user"
  transactions :: "inventory_transaction list"
  bills :: "bill list"

section \<open>Request values: JSON numbers and numeric strings\<close>

text \<open>
  The validators \<open>isInt\<close> and \<open>isFloat\<close> accept a JSON number and a string that reads as
  one, and no sanitizer converts the string: the handlers compute with the value as it was
  sent. \<open>-\<close>, \<open>*\<close>, \<open><\<close>, \<open>Math.max\<close> and \<open>Math.abs\<close> convert a numeric string to its
  number; \<open>+\<close> with a string operand concatenates.
\<close>

datatype quantity = Num int | Str string

datatype amount = NumAmount real | StrAmount string

datatype error =
    ValidationFailed
  | AdminNotFound
  | ProductNotFound nat
  | InsufficientStock string int quantity
  | BillNotFound
  | ServerError

subsection \<open>Decimal numerals\<close>

text \<open>Decimal rendering of a non-negative integer, as a template literal prints it.\<close>

definition digit_char :: "nat \<Rightarrow> char" where
  "digit_char d = char_of (48 + d)"

fun string_of_nat :: "nat \<Rightarrow> string" where
  "string_of_nat n =
     (if n < 10 then [digit_char n] else string_of_nat (n div 10) @ [digit_char (n mod 10)])"

definition is_digit :: "char \<Rightarrow> bool" where
  "is_digit c = (48 \<le> (of_char c :: nat) \<and> (of_char c :: nat) \<le> 57)"

definition nat_of_string :: "string \<Rightarrow> nat" where
  "nat_of_string cs = foldl (\<lambda>a c. 10 * a + (of_char c - 48)) 0 cs"

text \<open>The integer syntax of \<open>isInt\<close>: an optional sign and at least one digit.\<close>

definition unsigned_part :: "string \<Rightarrow> string" where
  "unsigned_part cs =
     (case cs of
        [] \<Rightarrow> []
      | c # rest \<Rightarrow> if c = CHR ''+'' \<or> c = CHR ''-'' then rest else cs)"

definition is_int_string :: "string \<Rightarrow> bool" where
  "is_int_string cs = (unsigned_part cs \<noteq> [] \<and> list_all is_digit (unsigned_part cs))"

definition int_of_string :: "string \<Rightarrow> int" where
  "int_of_string cs =
     (case cs of
        [] \<Rightarrow> 0
      | c # rest \<Rightarrow>
          if c = CHR ''-'' then - int (nat_of_string rest)
          else int (nat_of_string (unsigned_part cs)))"

text \<open>How JavaScript prints an integer (below 1e21; from there on it prints an exponent).\<close>

definition int_string :: "int \<Rightarrow> string" where
  "int_string n = (if n < 0 then CHR ''-'' # string_of_nat (nat (- n)) else string_of_nat (nat n))"

subsection \<open>Integers as doubles\<close>

text \<open>
  A JavaScript number is a double: an integer of more than 53 bits is rounded to the nearest
  one with 53 significant bits, ties to the even one. (The overflow to Infinity near 1.8e308
  is outside the model.)
\<close>

fun bit_length :: "nat \<Rightarrow> nat" where
  "bit_length n = (if n = 0 then 0 else Suc (bit_length (n div 2)))"

definition round_to :: "nat \<Rightarrow> nat \<Rightarrow> nat" where
  "round_to u m =
     (let q = m div u; r = m mod u
      in if 2 * r < u \<or> (2 * r = u \<and> even q) then q * u else (q + 1) * u)"

definition round53 :: "int \<Rightarrow> int" where
  "round53 n =
     (if \<bar>n\<bar> \<le> 2 ^ 53 then n
      else sgn n * int (round_to (2 ^ (bit_length (nat \<bar>n\<bar>) - 53)) (nat \<bar>n\<bar>)))"

text \<open>\<open>Number(q)\<close>: the number a quantity stands for.\<close>

definition quantity_value :: "quantity \<Rightarrow> int" where
  "quantity_value q = (case q of Num n \<Rightarrow> round53 n | Str cs \<Rightarrow> round53 (int_of_string cs))"

text \<open>
  \<open>isInt({ min: m })\<close>. A number is validated through its printed form, which is a plain
  integer numeral below 1e21 (a JSON number with a fraction fails the check: the numbers of
  the model are the integers).
\<close>

definition isInt :: "int \<Rightarrow> quantity \<Rightarrow> bool" where
  "isInt m q =
     (case q of
        Num n \<Rightarrow> \<bar>round53 n\<bar> < 10 ^ 21 \<and> m \<le> round53 n
      | Str cs \<Rightarrow> is_int_string cs \<and> m \<le> round53 (int_of_string cs))"

text \<open>
  Mongoose casts a string given for a Number path with \<open>Number(...)\<close> and refuses it when
  that is NaN. On the strings met here, a printed integer followed by a string in integer
  syntax, that is the case exactly when the whole is not in integer syntax.
\<close>

definition number_of_string :: "string \<Rightarrow> int option" where
  "number_of_string cs = (if is_int_string cs then Some (round53 (int_of_string cs)) else None)"

text \<open>
  \<open>a + q\<close> for a number \<open>a\<close>, cast to a Number path: the sum for a number \<open>q\<close>, the
  concatenation read back as a number for a string \<open>q\<close>.
\<close>

definition js_plus :: "int \<Rightarrow> quantity \<Rightarrow> int option" where
  "js_plus a q =
     (case q of
        Num n \<Rightarrow> Some (round53 (a + round53 n))
      | Str cs \<Rightarrow> number_of_string (int_string a @ cs))"

definition js_minus :: "int \<Rightarrow> quantity \<Rightarrow> int" where
  "js_minus a q = round53 (a - quantity_value q)"

subsection \<open>Amounts\<close>

text \<open>
  The decimal syntax \<open>Number(...)\<close> and \<open>isFloat\<close> share on the strings met here: an
  optional sign, digits with an optional fraction, at least one digit among them, and an
  optional exponent.
\<close>

definition parse_float :: "string \<Rightarrow> real option" where
  "parse_float cs =
     (let negative = (case cs of [] \<Rightarrow> False | c # rest \<Rightarrow> c = CHR ''-'');
          r0 = unsigned_part cs;
          ip = takeWhile is_digit r0;
          r1 = dropWhile is_digit r0;
          fp = (case r1 of [] \<Rightarrow> [] | c # rest \<Rightarrow>
                  if c = CHR ''.'' then takeWhile is_digit rest else []);
          r2 = (case r1 of [] \<Rightarrow> [] | c # rest \<Rightarrow>
                  if c = CHR ''.'' then dropWhile is_digit rest else r1);
          ex = (case r2 of
                  [] \<Rightarrow> Some 0
                | c # rest \<Rightarrow>
                    if (c = CHR ''e'' \<or> c = CHR ''E'') \<and> is_int_string rest
                    then Some (int_of_string rest) else None)
      in if ip @ fp = [] then None
         else case ex of
           None \<Rightarrow> None
         | Some e \<Rightarrow>
             Some ((if negative then - 1 else 1)
                   * (of_nat (nat_of_string (ip @ fp)) / 10 ^ length fp)
                   * (if 0 \<le> e then 10 ^ nat e else 1 / 10 ^ nat (- e))))"

text \<open>\<open>isFloat({ min: 0 })\<close>.\<close>

definition isFloat_min0 :: "amount \<Rightarrow> bool" where
  "isFloat_min0 a =
     (case a of
        NumAmount x \<Rightarrow> 0 \<le> x
      | StrAmount cs \<Rightarrow> (case parse_float cs of None \<Rightarrow> False | Some v \<Rightarrow> 0 \<le> v))"

text \<open>\<open>Number(a)\<close> for a validated amount.\<close>

definition amount_value :: "amount \<Rightarrow> real" where
  "amount_value a =
     (case a of
        NumAmount x \<Rightarrow> x
      | StrAmount cs \<Rightarrow> (case parse_float cs of None \<Rightarrow> 0 | Some v \<Rightarrow> v))"

text \<open>
  How JavaScript prints a number, for the integers below 1e21, where it prints the decimal
  digits. What it prints for a number with a fraction depends on the binary digits of the
  double, which the model does not have: it is left unspecified.
\<close>

definition number_string :: "real \<Rightarrow> string" where
  "number_string x =
     (if of_int \<lfloor>x\<rfloor> = x \<and> \<bar>x\<bar> < 10 ^ 21 then int_string \<lfloor>x\<rfloor> else undefined)"

text \<open>
  \<open>subtotal + tax - discount\<close>, with \<open>tax = 0\<close> and \<open>discount = 0\<close> when absent: a string
  tax is appended to the printed subtotal and the result read back as a number (NaN, here
  \<open>None\<close>, when it does not read as one); the subtraction converts a string discount.
\<close>

definition js_total :: "real \<Rightarrow> amount option \<Rightarrow> amount option \<Rightarrow> real option" where
  "js_total sub t d =
     (let dv = (case d of None \<Rightarrow> 0 | Some a \<Rightarrow> amount_value a)
      in case t of
           None \<Rightarrow> Some (sub + 0 - dv)
         | Some (NumAmount x) \<Rightarrow> Some (sub + x - dv)
         | Some (StrAmount cs) \<Rightarrow>
             (case parse_float (number_string sub @ cs) of
                None \<Rightarrow> None
              | Some v \<Rightarrow> Some (v - dv)))"

section \<open>Persistence: validation and the schemas' pre-save hooks\<close>

text \<open>
  \<open>product.save()\<close> runs \<open>productSchema.pre('save')\<close> and stores the document. The handlers
  write back a product read from the store with only its stock count changed, to a number
  that is not negative when the stored one was not.
\<close>

definition product_pre_save :: "product \<Rightarrow> product" where
  "product_pre_save p = p\<lparr>inStock := (0 < stockCount p)\<rparr>"

definition product_save :: "nat \<Rightarrow> product \<Rightarrow> state \<Rightarrow> state" where
  "product_save pid p s = s\<lparr>products := (products s)(pid \<mapsto> product_pre_save p)\<rparr>"

definition transaction_save :: "inventory_transaction \<Rightarrow> state \<Rightarrow> state" where
  "transaction_save t s = s\<lparr>transactions := transactions s @ [t]\<rparr>"

text \<open>\<open>!this.billNumber\<close>: an absent or an empty bill number is falsy.\<close>

definition no_billNumber :: "bill \<Rightarrow> bool" where
  "no_billNumber b = (case billNumber b of None \<Rightarrow> True | Some n \<Rightarrow> n = [])"

text \<open>
  The validators of the Bill schema: \<open>billNumber\<close> is required (an empty string does not
  count), a line's quantity is at least 1, and no price, subtotal, tax, discount or total is
  negative; the total must be a number.
\<close>

definition bill_valid :: "bill \<Rightarrow> bool" where
  "bill_valid b =
     (\<not> no_billNumber b
      \<and> list_all (\<lambda>l. 1 \<le> item_quantity l \<and> 0 \<le> unitPrice l \<and> 0 \<le> totalPrice l) (items b)
      \<and> 0 \<le> subtotal b \<and> 0 \<le> tax b \<and> 0 \<le> discount b
      \<and> (case bill_total b of None \<Rightarrow> False | Some t \<Rightarrow> 0 \<le> t))"

text \<open>
  \<open>billSchema.pre('save')\<close>: \<open>now\<close> is the reading of \<open>Date.now()\<close>, \<open>count\<close> the result of
  \<open>countDocuments()\<close> on the bills collection.
\<close>

definition bill_pre_save :: "nat \<Rightarrow> nat \<Rightarrow> bill \<Rightarrow> bill" where
  "bill_pre_save now count b =
     (if no_billNumber b
      then b\<lparr>billNumber := Some (''BILL-'' @ string_of_nat now @ ''-'' @ string_of_nat (count + 1))\<rparr>
      else b)"

text \<open>
  \<open>bill.save()\<close>. Mongoose validates the document first, and only then runs the schema's
  \<open>pre('save')\<close> function: a document that fails validation raises ValidationError (here
  \<open>None\<close>), the hook does not run and nothing is stored. A valid new document (no identifier
  yet) is inserted at the end, a valid existing one is written back in its place.
\<close>

definition bill_save :: "nat \<Rightarrow> nat option \<Rightarrow> bill \<Rightarrow> state \<Rightarrow> (bill \<times> state) option" where
  "bill_save now ident b s =
     (if \<not> bill_valid b then None
      else
        (let b' = bill_pre_save now (length (bills s)) b
         in case ident of
              None \<Rightarrow> Some (b', s\<lparr>bills := bills s @ [b']\<rparr>)
            | Some i \<Rightarrow> Some (b', s\<lparr>bills := (bills s)[i := b']\<rparr>)))"

section \<open>Stock ledger: routes/inventory.js\<close>

text \<open>
  Each handler takes the request body and the database and returns its response together
  with the database afterwards; an exception caught by the handler's \<open>catch\<close> is the
  response \<open>ServerError\<close> (status 500). The \<open>auth\<close> and \<open>checkPermission\<close> middleware run
  before a handler and are not part of it.

  \<open>POST /add-stock\<close>: \<open>previousStock + quantity\<close> is the only use of the quantity in the
  arithmetic, and for a string it is a concatenation; when the result does not read as a
  number the product's save fails and nothing is written. The response's \<open>newStock\<close> is
  given by the number it reads as.
\<close>

definition add_stock ::
  "nat \<Rightarrow> quantity \<Rightarrow> string \<Rightarrow> state \<Rightarrow> (error + inventory_transaction \<times> int) \<times> state" where
  "add_stock productId qty reason s =
     (if \<not> (isInt 1 qty \<and> reason \<noteq> []) then (Inl ValidationFailed, s)
      else case products s productId of
        None \<Rightarrow> (Inl (ProductNotFound productId), s)
      | Some p \<Rightarrow>
          (let prev = stockCount p
           in case js_plus prev qty of
                None \<Rightarrow> (Inl ServerError, s)
              | Some new \<Rightarrow>
                  (let s1 = product_save productId (p\<lparr>stockCount := new\<rparr>) s;
                       t = \<lparr>tx_product = productId, tx_type = IN,
                            tx_quantity = quantity_value qty,
                            previousStock = prev, newStock = new\<rparr>
                   in (Inr (t, new), transaction_save t s1))))"

text \<open>
  \<open>POST /remove-stock\<close> and \<open>POST /adjust-stock\<close> use the quantity only under \<open>-\<close>,
  \<open>Math.max\<close> and \<open>Math.abs\<close> and as a value cast to a Number path: their quantity is given
  by the number it stands for.
\<close>

definition remove_stock ::
  "nat \<Rightarrow> int \<Rightarrow> string \<Rightarrow> state \<Rightarrow> (error + inventory_transaction \<times> int) \<times> state" where
  "remove_stock productId qty reason s =
     (if \<not> (1 \<le> qty \<and> reason \<noteq> []) then (Inl ValidationFailed, s)
      else case products s productId of
        None \<Rightarrow> (Inl (ProductNotFound productId), s)
      | Some p \<Rightarrow>
          (let prev = stockCount p;
               new = max 0 (prev - qty);
               s1 = product_save productId (p\<lparr>stockCount := new\<rparr>) s;
               t = \<lparr>tx_product = productId, tx_type = OUT, tx_quantity = qty,
                    previousStock = prev, newStock = new\<rparr>
           in (Inr (t, new), transaction_save t s1)))"

definition adjust_stock ::
  "nat \<Rightarrow> int \<Rightarrow> string \<Rightarrow> state \<Rightarrow> (error + inventory_transaction \<times> int) \<times> state" where
  "adjust_stock productId newQuantity reason s =
     (if \<not> (0 \<le> newQuantity \<and> reason \<noteq> []) then (Inl ValidationFailed, s)
      else case products s productId of
        None \<Rightarrow> (Inl (ProductNotFound productId), s)
      | Some p \<Rightarrow>
          (let prev = stockCount p;
               adjustmentQuantity = \<bar>newQuantity - prev\<bar>;
               s1 = product_save productId (p\<lparr>stockCount := newQuantity\<rparr>) s;
               t = \<lparr>tx_product = productId, tx_type = ADJUSTMENT, tx_quantity = adjustmentQuantity,
                    previousStock = prev, newStock = newQuantity\<rparr>
           in (Inr (t, newQuantity), transaction_save t s1)))"

section \<open>Bill generation and status update: routes/bills.js\<close>

record bill_request =
  req_adminId :: nat
  req_items :: "(nat \<times> quantity) list"
  req_dueDate :: nat
  req_tax :: "amount option"
  req_discount :: "amount option"

text \<open>The express-validator chain of \<open>POST /generate\<close>.\<close>

definition optional_min0 :: "amount option \<Rightarrow> bool" where
  "optional_min0 v = (case v of None \<Rightarrow> True | Some a \<Rightarrow> isFloat_min0 a)"

definition request_valid :: "bill_request \<Rightarrow> bool" where
  "request_valid r =
     (req_items r \<noteq> [] \<and> list_all (\<lambda>(pid, qty). isInt 1 qty) (req_items r)
      \<and> optional_min0 (req_tax r) \<and> optional_min0 (req_discount r))"

definition admin_exists :: "state \<Rightarrow> nat \<Rightarrow> bool" where
  "admin_exists s a = (case users s a of None \<Rightarrow> False | Some u \<Rightarrow> role u = Admin)"

text \<open>
  The \<open>for (const item of items)\<close> loop: for each line in request order, look the product
  up, check availability, price the line, debit the stock, save the product and save the
  OUT transaction. A failing line returns at once, with the database as the earlier lines
  left it. The transaction's \<open>previousStock\<close> is \<open>product.stockCount + item.quantity\<close>
  after the debit: for a string quantity a concatenation, and when that does not read as a
  number the transaction's save fails, after the product was saved.
\<close>

fun process_items ::
  "(nat \<times> quantity) list \<Rightarrow> bill_item list \<Rightarrow> real \<Rightarrow> state
     \<Rightarrow> (error + bill_item list \<times> real) \<times> state" where
  "process_items [] processedItems sub s = (Inr (processedItems, sub), s)"
| "process_items ((pid, qty) # rest) processedItems sub s =
     (case products s pid of
        None \<Rightarrow> (Inl (ProductNotFound pid), s)
      | Some p \<Rightarrow>
          if stockCount p < quantity_value qty
          then (Inl (InsufficientStock (name p) (stockCount p) qty), s)
          else
            (let itemTotal = price p * of_int (quantity_value qty);
                 line = \<lparr>item_product = pid, item_quantity = quantity_value qty,
                         unitPrice = price p, totalPrice = itemTotal\<rparr>;
                 p' = p\<lparr>stockCount := js_minus (stockCount p) qty\<rparr>;
                 s1 = product_save pid p' s
             in case js_plus (stockCount p') qty of
                  None \<Rightarrow> (Inl ServerError, s1)
                | Some prev \<Rightarrow>
                    (let t = \<lparr>tx_product = pid, tx_type = OUT,
                              tx_quantity = quantity_value qty,
                              previousStock = prev, newStock = stockCount p'\<rparr>
                     in process_items rest (processedItems @ [line]) (sub + itemTotal)
                          (transaction_save t s1))))"

text \<open>
  \<open>new Bill({...})\<close>: the handler passes no bill number and no status; the schema's default
  status is PENDING. Tax and discount are cast to numbers.
\<close>

definition new_bill ::
  "nat \<Rightarrow> bill_item list \<Rightarrow> real \<Rightarrow> real \<Rightarrow> real \<Rightarrow> real option \<Rightarrow> nat \<Rightarrow> nat \<Rightarrow> bill" where
  "new_bill admin processedItems sub t d tot due actor =
     \<lparr>billNumber = None, adminId = admin, items = processedItems, subtotal = sub,
        tax = t, discount = d, bill_total = tot, status = PENDING, dueDate = due,
        generatedBy = actor\<rparr>"

text \<open>
  The handler of \<open>POST /generate\<close> up to and including \<open>new Bill({...})\<close> (lines 97 to 169):
  validation, the admin check, the loop, the total and the document. \<open>actor\<close> is the
  authenticated user.
\<close>

definition compose_bill :: "nat \<Rightarrow> bill_request \<Rightarrow> state \<Rightarrow> (error + bill) \<times> state" where
  "compose_bill actor r s =
     (if \<not> request_valid r then (Inl ValidationFailed, s)
      else if \<not> admin_exists s (req_adminId r) then (Inl AdminNotFound, s)
      else case process_items (req_items r) [] 0 s of
        (Inl e, s1) \<Rightarrow> (Inl e, s1)
      | (Inr (processedItems, sub), s1) \<Rightarrow>
          (let t = (case req_tax r of None \<Rightarrow> 0 | Some a \<Rightarrow> amount_value a);
               d = (case req_discount r of None \<Rightarrow> 0 | Some a \<Rightarrow> amount_value a);
               tot = js_total sub (req_tax r) (req_discount r)
           in (Inr (new_bill (req_adminId r) processedItems sub t d tot (req_dueDate r) actor),
               s1)))"

text \<open>
  The whole handler: the composed bill is saved, and the save's exception is caught and
  answered with status 500, the debits of the loop already written. \<open>now\<close> is the clock
  reading at the save.
\<close>

definition generate_bill ::
  "nat \<Rightarrow> nat \<Rightarrow> bill_request \<Rightarrow> state \<Rightarrow> (error + bill) \<times> state" where
  "generate_bill now actor r s =
     (case compose_bill actor r s of
        (Inl e, s1) \<Rightarrow> (Inl e, s1)
      | (Inr b, s1) \<Rightarrow>
          (case bill_save now None b s1 of
             None \<Rightarrow> (Inl ServerError, s1)
           | Some (b', s2) \<Rightarrow> (Inr b', s2)))"

definition update_bill_status ::
  "nat \<Rightarrow> nat \<Rightarrow> bill_status \<Rightarrow> state \<Rightarrow> (error + bill) \<times> state" where
  "update_bill_status now ident st s =
     (if ident < length (bills s)
      then (let b = (bills s ! ident)\<lparr>status := st\<rparr>
            in case bill_save now (Some ident) b s of
                 None \<Rightarrow> (Inl ServerError, s)
               | Some (b', s1) \<Rightarrow> (Inr b', s1))
      else (Inl BillNotFound, s))"

section \<open>Requests and runs\<close>

datatype request =
    AddStock nat quantity string
  | RemoveStock nat int string
  | AdjustStock nat int string
  | GenerateBill nat nat bill_request
  | UpdateBillStatus nat nat bill_status

fun handle :: "request \<Rightarrow> state \<Rightarrow> state" where
  "handle (AddStock pid qty reason) s = snd (add_stock pid qty reason s)"
| "handle (RemoveStock pid qty reason) s = snd (remove_stock pid qty reason s)"
| "handle (AdjustStock pid qty reason) s = snd (adjust_stock pid qty reason s)"
| "handle (GenerateBill now actor r) s = snd (generate_bill now actor r s)"
| "handle (UpdateBillStatus now ident st) s = snd (update_bill_status now ident st s)"

fun run :: "request list \<Rightarrow> state \<Rightarrow> state" where
  "run [] s = s"
| "run (r # rs) s = run rs (handle r s)"

section \<open>Vocabulary of the properties\<close>

text \<open>
  The database after one line of a bill request has been debited and its transaction,
  with \<open>prev\<close> as the recorded previous stock, saved.
\<close>

definition debit_line :: "nat \<Rightarrow> quantity \<Rightarrow> product \<Rightarrow> int \<Rightarrow> state \<Rightarrow> state" where
  "debit_line pid qty p prev s =
     transaction_save
       \<lparr>tx_product = pid, tx_type = OUT, tx_quantity = quantity_value qty,
          previousStock = prev, newStock = js_minus (stockCount p) qty\<rparr>
       (product_save pid (p\<lparr>stockCount := js_minus (stockCount p) qty\<rparr>) s)"

text \<open>The quantity a list of request lines asks of one product.\<close>

definition requested :: "nat \<Rightarrow> (nat \<times> quantity) list \<Rightarrow> int" where
  "requested q its = sum_list (map (\<lambda>i. quantity_value (snd i)) (filter (\<lambda>i. fst i = q) its))"

text \<open>
  What a transaction record says about the stock it moved: both counts non-negative, an IN
  adds its quantity, an OUT takes its quantity off but stops at zero, an ADJUSTMENT records
  the absolute difference.
\<close>

definition tx_consistent :: "inventory_transaction \<Rightarrow> bool" where
  "tx_consistent t =
     (0 \<le> previousStock t \<and> 0 \<le> newStock t \<and>
      (case tx_type t of
         IN \<Rightarrow> newStock t - previousStock t = tx_quantity t
       | OUT \<Rightarrow> newStock t = max 0 (previousStock t - tx_quantity t)
       | ADJUSTMENT \<Rightarrow> tx_quantity t = \<bar>newStock t - previousStock t\<bar>))"

text \<open>
  The range in which the handlers' arithmetic is that of the integers: stock counts of at
  most \<open>2 ^ 53\<close>, quantities that take part in a \<open>+\<close> sent as JSON numbers, sums and
  targets of at most \<open>2 ^ 53\<close>. \<open>exact_run\<close> asks it of every request of a run, in the
  database the request meets.
\<close>

definition stock_nonneg :: "state \<Rightarrow> bool" where
  "stock_nonneg s = (\<forall>q p. products s q = Some p \<longrightarrow> 0 \<le> stockCount p)"

definition stock_in_range :: "state \<Rightarrow> bool" where
  "stock_in_range s = (\<forall>q p. products s q = Some p \<longrightarrow> stockCount p \<le> 2 ^ 53)"

definition sent_as_number :: "quantity \<Rightarrow> bool" where
  "sent_as_number q = (case q of Num n \<Rightarrow> True | Str cs \<Rightarrow> False)"

fun exact_request :: "state \<Rightarrow> request \<Rightarrow> bool" where
  "exact_request s (AddStock pid q reason) =
     (sent_as_number q \<and>
      (case products s pid of
         None \<Rightarrow> True
       | Some p \<Rightarrow> stockCount p + quantity_value q \<le> 2 ^ 53))"
| "exact_request s (RemoveStock pid qty reason) = True"
| "exact_request s (AdjustStock pid target reason) = (target \<le> 2 ^ 53)"
| "exact_request s (GenerateBill now actor r) = list_all (\<lambda>(pid, q). sent_as_number q) (req_items r)"
| "exact_request s (UpdateBillStatus now ident st) = True"

fun exact_run :: "request list \<Rightarrow> state \<Rightarrow> bool" where
  "exact_run [] s = True"
| "exact_run (r # rs) s = (stock_in_range s \<and> exact_request s r \<and> exact_run rs (handle r s))"

definition ledger_step :: "state \<Rightarrow> state \<Rightarrow> bool" where
  "ledger_step s s' =
     (stock_nonneg s' \<and> (\<exists>new. transactions s' = transactions s @ new \<and> list_all tx_consistent new))"


section \<open>A sample database\<close>

definition shop :: state where
  "shop =
     \<lparr>products =
        [1 \<mapsto> \<lparr>name = ''Aviator'', price = 10, stockCount = 5, inStock = True\<rparr>,
         2 \<mapsto> \<lparr>name = ''Reader'', price = 4, stockCount = 2, inStock = True\<rparr>],
      users =
        [7 \<mapsto> \<lparr>role = Admin, firstName = ''Asha'', lastName = ''Rao''\<rparr>,
         9 \<mapsto> \<lparr>role = Superadmin, firstName = ''Root'', lastName = ''Owner''\<rparr>],
      transactions = [],
      bills = []\<rparr>"

definition first_request :: bill_request where
  "first_request =
     \<lparr>req_adminId = 7, req_items = [(1, Num 3)], req_dueDate = 1702592000000,
        req_tax = None, req_discount = None\<rparr>"

definition single_line_request :: bill_request where
  "single_line_request =
     \<lparr>req_adminId = 7, req_items = [(2, Num 5)], req_dueDate = 1702592000000,
        req_tax = None, req_discount = None\<rparr>"

definition two_line_request :: bill_request where
  "two_line_request =
     \<lparr>req_adminId = 7, req_items = [(1, Num 3), (2, Num 5)], req_dueDate = 1702592000000,
        req_tax = None, req_discount = None\<rparr>"

definition string_tax_request :: bill_request where
  "string_tax_request =
     \<lparr>req_adminId = 7, req_items = [(1, Num 3)], req_dueDate = 1702592000000,
        req_tax = Some (StrAmount ''5''), req_discount = None\<rparr>"

definition paid_ledger :: state where
  "paid_ledger =
     shop\<lparr>bills :=
       [\<lparr>billNumber = Some ''BILL-1700000000000-1'', adminId = 7,
          items = [\<lparr>item_product = 1, item_quantity = 3, unitPrice = 10, totalPrice = 30\<rparr>],
          subtotal = 30, tax = 0, discount = 0, bill_total = Some 30, status = PAID,
          dueDate = 1702592000000, generatedBy = 9\<rparr>]\<rparr>"

declare string_of_nat.simps [simp del]

declare bit_length.simps [simp del]

lemmas sample_defs =
  shop_def first_request_def single_line_request_def two_line_request_def
  string_tax_request_def paid_ledger_def
  request_valid_def optional_min0_def isFloat_min0_def amount_value_def admin_exists_def
  isInt_def quantity_value_def round53_def js_plus_def js_minus_def
  product_save_def product_pre_save_def transaction_save_def
  bill_save_def bill_valid_def bill_pre_save_def no_billNumber_def new_bill_def Let_def

lemmas string_defs =
  number_of_string_def is_int_string_def int_of_string_def unsigned_part_def int_string_def
  is_digit_def nat_of_string_def string_of_nat.simps digit_char_def char_of_def bit_Suc_0_iff

lemma sample_numerals:
  "string_of_nat 1700000000000 = ''1700000000000''"
  "string_of_nat 1 = ''1''"
  "string_of_nat (Suc 0) = ''1''"
  "string_of_nat 2 = ''2''"
  "string_of_nat 30 = ''30''"
  by (simp_all add: string_of_nat.simps digit_char_def char_of_def bit_Suc_0_iff)

section \<open>Decimal rendering\<close>

lemma string_of_nat_digits: "list_all is_digit (string_of_nat n)"
proof (induction n rule: string_of_nat.induct)
  case (1 n)
  show ?case
  proof (cases "n < 10")
    case True
    then show ?thesis
      by (subst string_of_nat.simps) (simp add: is_digit_def digit_char_def)
  next
    case False
    have "n mod 10 < 10" by simp
    then have "is_digit (digit_char (n mod 10))"
      by (simp add: is_digit_def digit_char_def)
    with "1.IH"[OF False] False show ?thesis
      by (subst string_of_nat.simps) simp
  qed
qed

lemma nat_of_string_of_nat: "nat_of_string (string_of_nat n) = n"
proof (induction n rule: string_of_nat.induct)
  case (1 n)
  show ?case
  proof (cases "n < 10")
    case True
    then show ?thesis
      by (subst string_of_nat.simps) (simp add: nat_of_string_def digit_char_def)
  next
    case False
    have "n mod 10 < 10" by simp
    then have d: "(of_char (digit_char (n mod 10)) :: nat) - 48 = n mod 10"
      by (simp add: digit_char_def)
    have "nat_of_string (string_of_nat n)
            = 10 * nat_of_string (string_of_nat (n div 10)) + n mod 10"
      using False d by (subst string_of_nat.simps) (simp add: nat_of_string_def)
    with "1.IH"[OF False] show ?thesis by simp
  qed
qed

lemma string_of_nat_not_empty: "string_of_nat n \<noteq> []"
  by (subst string_of_nat.simps) simp

lemma digit_not_sign: "is_digit c \<Longrightarrow> c \<noteq> CHR ''-'' \<and> c \<noteq> CHR ''+''"
  by (auto simp: is_digit_def)

lemma int_of_string_unsigned:
  assumes "cs = c # rest" and "c \<noteq> CHR ''-''"
  shows "0 \<le> int_of_string (cs @ ds)"
  using assms by (simp add: int_of_string_def)

lemma int_of_string_after_numeral: "0 \<le> int_of_string (string_of_nat n @ cs)"
proof -
  obtain c rest where shape: "string_of_nat n = c # rest"
    using string_of_nat_not_empty[of n] by (cases "string_of_nat n") auto
  with string_of_nat_digits[of n] have "is_digit c" by simp
  then have "c \<noteq> CHR ''-''" by (simp add: digit_not_sign)
  with shape show ?thesis by (rule int_of_string_unsigned)
qed

section \<open>Rounding to a double\<close>

lemma round53_exact: "\<bar>n\<bar> \<le> 2 ^ 53 \<Longrightarrow> round53 n = n"
  by (simp add: round53_def)

lemma round53_nonneg: "0 \<le> n \<Longrightarrow> 0 \<le> round53 n"
  by (simp add: round53_def sgn_if)

lemma js_plus_nonneg:
  assumes "0 \<le> a" and "0 \<le> quantity_value q" and "js_plus a q = Some v"
  shows "0 \<le> v"
proof (cases q)
  case (Num n)
  with assms have "v = round53 (a + round53 n)" "0 \<le> a + round53 n"
    by (simp_all add: js_plus_def quantity_value_def)
  then show ?thesis by (simp add: round53_nonneg)
next
  case (Str cs)
  with assms have "v = round53 (int_of_string (string_of_nat (nat a) @ cs))"
    by (simp add: js_plus_def number_of_string_def int_string_def split: if_splits)
  then show ?thesis by (simp add: round53_nonneg int_of_string_after_numeral)
qed

lemma js_plus_string_nonneg:
  assumes "0 \<le> a" and "js_plus a (Str cs) = Some v"
  shows "0 \<le> v"
proof -
  from assms have "v = round53 (int_of_string (string_of_nat (nat a) @ cs))"
    by (simp add: js_plus_def number_of_string_def int_string_def split: if_splits)
  then show ?thesis by (simp add: round53_nonneg int_of_string_after_numeral)
qed

lemma isInt_value: "isInt m q \<Longrightarrow> m \<le> quantity_value q"
  by (cases q) (simp_all add: isInt_def quantity_value_def)

section \<open>The loop of bill generation\<close>

lemma process_items_step:
  "products s pid = Some p \<Longrightarrow> \<not> stockCount p < quantity_value qty \<Longrightarrow>
   js_plus (js_minus (stockCount p) qty) qty = Some prev \<Longrightarrow>
   process_items ((pid, qty) # rest) acc sub s =
     process_items rest
       (acc @ [\<lparr>item_product = pid, item_quantity = quantity_value qty, unitPrice = price p,
                totalPrice = price p * of_int (quantity_value qty)\<rparr>])
       (sub + price p * of_int (quantity_value qty)) (debit_line pid qty p prev s)"
  by (simp add: Let_def debit_line_def)

lemma process_items_record_refused:
  "products s pid = Some p \<Longrightarrow> \<not> stockCount p < quantity_value qty \<Longrightarrow>
   js_plus (js_minus (stockCount p) qty) qty = None \<Longrightarrow>
   process_items ((pid, qty) # rest) acc sub s =
     (Inl ServerError, product_save pid (p\<lparr>stockCount := js_minus (stockCount p) qty\<rparr>) s)"
  by (simp add: Let_def)

lemma debit_line_fields:
  "bills (debit_line pid qty p prev s) = bills s"
  "users (debit_line pid qty p prev s) = users s"
  "transactions (debit_line pid qty p prev s) =
     transactions s @ [\<lparr>tx_product = pid, tx_type = OUT, tx_quantity = quantity_value qty,
                         previousStock = prev, newStock = js_minus (stockCount p) qty\<rparr>]"
  "products (debit_line pid qty p prev s) =
     (products s)(pid \<mapsto> p\<lparr>stockCount := js_minus (stockCount p) qty,
                              inStock := (0 < js_minus (stockCount p) qty)\<rparr>)"
  by (simp_all add: debit_line_def product_save_def transaction_save_def product_pre_save_def)

lemma product_save_fields:
  "bills (product_save pid p s) = bills s"
  "users (product_save pid p s) = users s"
  "transactions (product_save pid p s) = transactions s"
  "products (product_save pid p s) = (products s)(pid \<mapsto> p\<lparr>inStock := (0 < stockCount p)\<rparr>)"
  by (simp_all add: product_save_def product_pre_save_def)

text \<open>One line of the loop has four outcomes.\<close>

lemma process_items_cases:
  obtains
    (missing) "products s pid = None"
      "process_items ((pid, qty) # rest) acc sub s = (Inl (ProductNotFound pid), s)"
  | (short) p where "products s pid = Some p" "stockCount p < quantity_value qty"
      "process_items ((pid, qty) # rest) acc sub s
         = (Inl (InsufficientStock (name p) (stockCount p) qty), s)"
  | (refused) p where "products s pid = Some p" "\<not> stockCount p < quantity_value qty"
      "js_plus (js_minus (stockCount p) qty) qty = None"
      "process_items ((pid, qty) # rest) acc sub s
         = (Inl ServerError, product_save pid (p\<lparr>stockCount := js_minus (stockCount p) qty\<rparr>) s)"
  | (debited) p prev where "products s pid = Some p" "\<not> stockCount p < quantity_value qty"
      "js_plus (js_minus (stockCount p) qty) qty = Some prev"
      "process_items ((pid, qty) # rest) acc sub s =
         process_items rest
           (acc @ [\<lparr>item_product = pid, item_quantity = quantity_value qty, unitPrice = price p,
                    totalPrice = price p * of_int (quantity_value qty)\<rparr>])
           (sub + price p * of_int (quantity_value qty)) (debit_line pid qty p prev s)"
proof (cases "products s pid")
  case None
  then show ?thesis using missing by simp
next
  case (Some p)
  show ?thesis
  proof (cases "stockCount p < quantity_value qty")
    case True
    with Some show ?thesis using short by simp
  next
    case False
    show ?thesis
    proof (cases "js_plus (js_minus (stockCount p) qty) qty")
      case None
      from process_items_record_refused[OF Some False None] Some False None
      show ?thesis using refused by blast
    next
      case (Some prev)
      from process_items_step[OF \<open>products s pid = Some p\<close> False Some] \<open>products s pid = Some p\<close> False Some
      show ?thesis using debited by blast
    qed
  qed
qed

lemma js_minus_nonneg: "\<not> a < quantity_value q \<Longrightarrow> 0 \<le> js_minus a q"
  by (simp add: js_minus_def round53_nonneg)

lemma process_items_bills_users:
  "bills (snd (process_items its acc sub s)) = bills s
   \<and> users (snd (process_items its acc sub s)) = users s"
proof (induction its arbitrary: acc sub s)
  case Nil
  show ?case by simp
next
  case (Cons it rest)
  obtain pid qty where it: "it = (pid, qty)" by (cases it)
  show ?case
  proof (cases rule: process_items_cases[of s pid qty rest acc sub])
    case missing
    with it show ?thesis by simp
  next
    case (short p)
    with it show ?thesis by simp
  next
    case (refused p)
    with it show ?thesis by (simp add: product_save_fields)
  next
    case (debited p prev)
    with it Cons.IH show ?thesis by (simp add: debit_line_fields)
  qed
qed

lemma process_items_changed_or_flag:
  "products (snd (process_items its acc sub s)) q = products s q
   \<or> (\<exists>p'. products (snd (process_items its acc sub s)) q = Some p'
           \<and> inStock p' = (0 < stockCount p'))"
proof (induction its arbitrary: acc sub s)
  case Nil
  show ?case by simp
next
  case (Cons it rest)
  obtain pid qty where it: "it = (pid, qty)" by (cases it)
  show ?case
  proof (cases rule: process_items_cases[of s pid qty rest acc sub])
    case missing
    with it show ?thesis by simp
  next
    case (short p)
    with it show ?thesis by simp
  next
    case (refused p)
    with it show ?thesis by (simp add: product_save_fields)
  next
    case (debited p prev)
    let ?s1 = "debit_line pid qty p prev s"
    let ?rest = "process_items rest
           (acc @ [\<lparr>item_product = pid, item_quantity = quantity_value qty, unitPrice = price p,
                    totalPrice = price p * of_int (quantity_value qty)\<rparr>])
           (sub + price p * of_int (quantity_value qty)) ?s1"
    have step: "products ?s1 q = products s q
        \<or> (\<exists>p'. products ?s1 q = Some p' \<and> inStock p' = (0 < stockCount p'))"
      by (simp add: debit_line_fields)
    from Cons.IH have ih: "products (snd ?rest) q = products ?s1 q
        \<or> (\<exists>p'. products (snd ?rest) q = Some p' \<and> inStock p' = (0 < stockCount p'))" .
    from step ih have "products (snd ?rest) q = products s q
        \<or> (\<exists>p'. products (snd ?rest) q = Some p' \<and> inStock p' = (0 < stockCount p'))"
      by auto
    with debited(4) it show ?thesis by simp
  qed
qed

lemma process_items_stock_nonneg:
  "products s q = Some p0 \<Longrightarrow> 0 \<le> stockCount p0 \<Longrightarrow>
   \<exists>p'. products (snd (process_items its acc sub s)) q = Some p' \<and> 0 \<le> stockCount p'"
proof (induction its arbitrary: acc sub s p0)
  case Nil
  then show ?case by simp
next
  case (Cons it rest)
  obtain pid qty where it: "it = (pid, qty)" by (cases it)
  show ?case
  proof (cases rule: process_items_cases[of s pid qty rest acc sub])
    case missing
    with it Cons.prems show ?thesis by simp
  next
    case (short p)
    with it Cons.prems show ?thesis by simp
  next
    case (refused p)
    with it Cons.prems show ?thesis
      by (auto simp: product_save_fields js_minus_nonneg)
  next
    case (debited p prev)
    let ?s1 = "debit_line pid qty p prev s"
    have "\<exists>p1. products ?s1 q = Some p1 \<and> 0 \<le> stockCount p1"
      using Cons.prems debited(1,2) by (auto simp: debit_line_fields js_minus_nonneg)
    then obtain p1 where "products ?s1 q = Some p1" "0 \<le> stockCount p1" by blast
    from Cons.IH[OF this] debited(4) it show ?thesis by simp
  qed
qed

section \<open>The outcomes of bill generation\<close>

lemma unnumbered_bill_refused: "bill_save now ident (new_bill a ls sub t d tot due actor) s = None"
  by (simp add: bill_save_def bill_valid_def no_billNumber_def new_bill_def)

lemma compose_bill_unnumbered:
  "compose_bill actor r s = (Inr b, s1) \<Longrightarrow> billNumber b = None"
  by (auto simp: compose_bill_def new_bill_def Let_def split: if_splits prod.splits sum.splits)

lemma compose_bill_rejected:
  "\<not> (request_valid r \<and> admin_exists s (req_adminId r)) \<Longrightarrow>
     compose_bill actor r s = (Inl (if request_valid r then AdminNotFound else ValidationFailed), s)"
  by (auto simp: compose_bill_def)

lemma compose_bill_line_failed:
  "request_valid r \<Longrightarrow> admin_exists s (req_adminId r) \<Longrightarrow>
   process_items (req_items r) [] 0 s = (Inl e, s1) \<Longrightarrow>
     compose_bill actor r s = (Inl e, s1)"
  by (simp add: compose_bill_def)

lemma compose_bill_built:
  "request_valid r \<Longrightarrow> admin_exists s (req_adminId r) \<Longrightarrow>
   process_items (req_items r) [] 0 s = (Inr (lines, sub), s1) \<Longrightarrow>
     \<exists>b. compose_bill actor r s = (Inr b, s1) \<and> billNumber b = None"
  by (simp add: compose_bill_def new_bill_def Let_def)

lemma generate_bill_rejected:
  "\<not> (request_valid r \<and> admin_exists s (req_adminId r)) \<Longrightarrow>
     generate_bill now actor r s = (Inl (if request_valid r then AdminNotFound else ValidationFailed), s)"
  by (simp add: generate_bill_def compose_bill_rejected)

lemma generate_bill_line_failed:
  "request_valid r \<Longrightarrow> admin_exists s (req_adminId r) \<Longrightarrow>
   process_items (req_items r) [] 0 s = (Inl e, s1) \<Longrightarrow>
     generate_bill now actor r s = (Inl e, s1)"
  by (simp add: generate_bill_def compose_bill_line_failed)

lemma generate_bill_save_refused:
  assumes "request_valid r" and "admin_exists s (req_adminId r)"
    and "process_items (req_items r) [] 0 s = (Inr (lines, sub), s1)"
  shows "generate_bill now actor r s = (Inl ServerError, s1)"
proof -
  from compose_bill_built[OF assms, of actor] obtain b where
    b: "compose_bill actor r s = (Inr b, s1) \<and> billNumber b = None" ..
  then have "bill_save now None b s1 = None"
    by (simp add: bill_save_def bill_valid_def no_billNumber_def)
  with b show ?thesis by (simp add: generate_bill_def)
qed

lemma generate_bill_outcome:
  "(\<exists>e. fst (generate_bill now actor r s) = Inl e)
   \<and> (snd (generate_bill now actor r s) = s
      \<or> snd (generate_bill now actor r s) = snd (process_items (req_items r) [] 0 s))"
proof (cases "request_valid r \<and> admin_exists s (req_adminId r)")
  case False
  then show ?thesis by (simp add: generate_bill_rejected)
next
  case True
  obtain res s1 where loop: "process_items (req_items r) [] 0 s = (res, s1)"
    by (cases "process_items (req_items r) [] 0 s")
  show ?thesis
  proof (cases res)
    case (Inl e)
    with True loop show ?thesis by (simp add: generate_bill_line_failed)
  next
    case (Inr ok)
    obtain lines sub where "ok = (lines, sub)" by (cases ok)
    with True loop Inr show ?thesis by (simp add: generate_bill_save_refused)
  qed
qed

lemma bill_save_ledger:
  "bill_save now ident b s = Some (b', s') \<Longrightarrow>
     products s' = products s \<and> transactions s' = transactions s \<and> users s' = users s"
  by (auto simp: bill_save_def Let_def split: option.splits if_splits)

lemma update_bill_status_ledger:
  "products (snd (update_bill_status now ident st s)) = products s
   \<and> transactions (snd (update_bill_status now ident st s)) = transactions s
   \<and> users (snd (update_bill_status now ident st s)) = users s"
proof (cases "ident < length (bills s)")
  case False
  then show ?thesis by (simp add: update_bill_status_def)
next
  case True
  show ?thesis
  proof (cases "bill_save now (Some ident) ((bills s ! ident)\<lparr>status := st\<rparr>) s")
    case None
    with True show ?thesis by (simp add: update_bill_status_def)
  next
    case (Some saved)
    obtain b' s' where "saved = (b', s')" by (cases saved)
    with Some True bill_save_ledger[of now "Some ident" "(bills s ! ident)\<lparr>status := st\<rparr>" s b' s']
    show ?thesis by (simp add: update_bill_status_def)
  qed
qed

section \<open>Stock never negative, request by request\<close>

lemma handle_stock_nonneg:
  assumes "products s q = Some p" and "0 \<le> stockCount p"
  shows "\<exists>p'. products (handle r s) q = Some p' \<and> 0 \<le> stockCount p'"
proof (cases r)
  case (AddStock pid qty reason)
  show ?thesis
  proof (cases "isInt 1 qty \<and> reason \<noteq> [] \<and> products s pid \<noteq> None")
    case False
    with AddStock assms show ?thesis
      by (auto simp: add_stock_def split: option.splits)
  next
    case True
    then obtain p0 where p0: "products s pid = Some p0" by auto
    show ?thesis
    proof (cases "js_plus (stockCount p0) qty")
      case None
      with True p0 AddStock assms show ?thesis by (simp add: add_stock_def)
    next
      case (Some new)
      have "pid = q \<longrightarrow> 0 \<le> new"
      proof
        assume "pid = q"
        with p0 assms have "0 \<le> stockCount p0" by simp
        moreover from True have "0 \<le> quantity_value qty" using isInt_value[of 1 qty] by simp
        ultimately show "0 \<le> new" using Some by (rule js_plus_nonneg)
      qed
      with True p0 Some AddStock assms show ?thesis
        by (auto simp: add_stock_def Let_def product_save_def transaction_save_def
              product_pre_save_def)
    qed
  qed
next
  case (RemoveStock pid qty reason)
  with assms show ?thesis
    by (auto simp: remove_stock_def Let_def product_save_def transaction_save_def
          product_pre_save_def split: option.splits)
next
  case (AdjustStock pid qty reason)
  with assms show ?thesis
    by (auto simp: adjust_stock_def Let_def product_save_def transaction_save_def
          product_pre_save_def split: option.splits)
next
  case (GenerateBill now actor req)
  from process_items_stock_nonneg[OF assms, of "req_items req" "[]" 0]
  have loop: "\<exists>p'. products (snd (process_items (req_items req) [] 0 s)) q = Some p'
                \<and> 0 \<le> stockCount p'" .
  have "\<exists>p'. products (snd (generate_bill now actor req s)) q = Some p' \<and> 0 \<le> stockCount p'"
    using generate_bill_outcome[of now actor req s, THEN conjunct2] loop assms
    by (elim disjE) simp_all
  with GenerateBill show ?thesis by simp
next
  case (UpdateBillStatus now ident st)
  with assms update_bill_status_ledger[of now ident st s] show ?thesis by simp
qed

section \<open>What the debited lines leave behind\<close>

lemma process_items_log:
  "process_items its acc sub s = (Inr (acc', sub'), s') \<Longrightarrow>
   \<exists>txs. transactions s' = transactions s @ txs
      \<and> map (\<lambda>t. (tx_product t, tx_quantity t)) txs = map (\<lambda>i. (fst i, quantity_value (snd i))) its
      \<and> list_all (\<lambda>t. tx_type t = OUT) txs"
proof (induction its arbitrary: acc sub s)
  case Nil
  then show ?case by simp
next
  case (Cons it rest)
  obtain pid qty where it: "it = (pid, qty)" by (cases it)
  show ?case
  proof (cases rule: process_items_cases[of s pid qty rest acc sub])
    case missing
    with it Cons.prems show ?thesis by simp
  next
    case (short p)
    with it Cons.prems show ?thesis by simp
  next
    case (refused p)
    with it Cons.prems show ?thesis by simp
  next
    case (debited p prev)
    let ?s1 = "debit_line pid qty p prev s"
    let ?t = "\<lparr>tx_product = pid, tx_type = OUT, tx_quantity = quantity_value qty,
                previousStock = prev, newStock = js_minus (stockCount p) qty\<rparr>"
    from Cons.prems it debited(4) have run: "process_items rest
           (acc @ [\<lparr>item_product = pid, item_quantity = quantity_value qty, unitPrice = price p,
                    totalPrice = price p * of_int (quantity_value qty)\<rparr>])
           (sub + price p * of_int (quantity_value qty)) ?s1 = (Inr (acc', sub'), s')"
      by simp
    from Cons.IH[OF run] obtain txs where txs:
      "transactions s' = transactions ?s1 @ txs
       \<and> map (\<lambda>t. (tx_product t, tx_quantity t)) txs = map (\<lambda>i. (fst i, quantity_value (snd i))) rest
       \<and> list_all (\<lambda>t. tx_type t = OUT) txs" ..
    have "transactions s' = transactions s @ (?t # txs)
       \<and> map (\<lambda>t. (tx_product t, tx_quantity t)) (?t # txs)
           = map (\<lambda>i. (fst i, quantity_value (snd i))) (it # rest)
       \<and> list_all (\<lambda>t. tx_type t = OUT) (?t # txs)"
      using txs it by (simp add: debit_line_fields)
    then show ?thesis by (rule exI)
  qed
qed

lemma js_minus_exact:
  assumes "\<not> a < quantity_value q" and "0 \<le> quantity_value q" and "a \<le> 2 ^ 53"
  shows "js_minus a q = a - quantity_value q"
proof -
  from assms have "\<bar>a - quantity_value q\<bar> \<le> 2 ^ 53" by simp
  then show ?thesis by (simp add: js_minus_def round53_exact)
qed

lemma process_items_stock:
  "process_items its acc sub s = (Inr (acc', sub'), s') \<Longrightarrow> stock_in_range s \<Longrightarrow>
   list_all (\<lambda>i. 0 \<le> quantity_value (snd i)) its \<Longrightarrow>
   map_option stockCount (products s' q)
     = map_option (\<lambda>n. n - requested q its) (map_option stockCount (products s q))"
proof (induction its arbitrary: acc sub s)
  case Nil
  then show ?case by (simp add: requested_def option.map_comp option.map_ident comp_def)
next
  case (Cons it rest)
  obtain pid qty where it: "it = (pid, qty)" by (cases it)
  show ?case
  proof (cases rule: process_items_cases[of s pid qty rest acc sub])
    case missing
    with it Cons.prems show ?thesis by simp
  next
    case (short p)
    with it Cons.prems show ?thesis by simp
  next
    case (refused p)
    with it Cons.prems show ?thesis by simp
  next
    case (debited p prev)
    let ?s1 = "debit_line pid qty p prev s"
    from Cons.prems(1) it debited(4) have run: "process_items rest
           (acc @ [\<lparr>item_product = pid, item_quantity = quantity_value qty, unitPrice = price p,
                    totalPrice = price p * of_int (quantity_value qty)\<rparr>])
           (sub + price p * of_int (quantity_value qty)) ?s1 = (Inr (acc', sub'), s')"
      by simp
    from Cons.prems(3) it have v: "0 \<le> quantity_value qty"
      and rest: "list_all (\<lambda>i. 0 \<le> quantity_value (snd i)) rest" by simp_all
    from Cons.prems(2) debited(1) have top: "stockCount p \<le> 2 ^ 53"
      by (simp add: stock_in_range_def)
    have exact: "js_minus (stockCount p) qty = stockCount p - quantity_value qty"
      using debited(2) v top by (rule js_minus_exact)
    have range1: "stock_in_range ?s1"
      using Cons.prems(2) top v exact
      by (auto simp: stock_in_range_def debit_line_fields)
    from Cons.IH[OF run range1 rest] have ih:
      "map_option stockCount (products s' q)
         = map_option (\<lambda>n. n - requested q rest) (map_option stockCount (products ?s1 q))" .
    show ?thesis
      using ih debited(1) it exact
      by (cases "products s q") (auto simp: debit_line_fields requested_def)
  qed
qed

lemma process_items_failure:
  "process_items its acc sub s = (Inl e, s') \<Longrightarrow> e \<noteq> ServerError \<Longrightarrow>
   \<exists>pre x post acc1 sub1. its = pre @ x # post
      \<and> process_items pre acc sub s = (Inr (acc1, sub1), s')
      \<and> process_items [x] acc1 sub1 s' = (Inl e, s')"
proof (induction its arbitrary: acc sub s)
  case Nil
  then show ?case by simp
next
  case (Cons it rest)
  obtain pid qty where it: "it = (pid, qty)" by (cases it)
  show ?case
  proof (cases rule: process_items_cases[of s pid qty rest acc sub])
    case missing
    with Cons.prems it have "e = ProductNotFound pid" "s' = s" by simp_all
    with missing it have "it # rest = [] @ it # rest
      \<and> process_items [] acc sub s = (Inr (acc, sub), s')
      \<and> process_items [it] acc sub s' = (Inl e, s')" by simp
    then show ?thesis by (intro exI)
  next
    case (short p)
    with Cons.prems it have "e = InsufficientStock (name p) (stockCount p) qty" "s' = s"
      by simp_all
    with short it have "it # rest = [] @ it # rest
      \<and> process_items [] acc sub s = (Inr (acc, sub), s')
      \<and> process_items [it] acc sub s' = (Inl e, s')" by simp
    then show ?thesis by (intro exI)
  next
    case (refused p)
    with Cons.prems it show ?thesis by simp
  next
    case (debited p prev)
    let ?line = "\<lparr>item_product = pid, item_quantity = quantity_value qty, unitPrice = price p,
                    totalPrice = price p * of_int (quantity_value qty)\<rparr>"
    let ?s1 = "debit_line pid qty p prev s"
    from Cons.prems(1) it debited(4) have run:
      "process_items rest (acc @ [?line]) (sub + price p * of_int (quantity_value qty)) ?s1
         = (Inl e, s')"
      by simp
    from Cons.IH[OF run Cons.prems(2)] obtain pre x post acc1 sub1 where split:
      "rest = pre @ x # post
       \<and> process_items pre (acc @ [?line]) (sub + price p * of_int (quantity_value qty)) ?s1
           = (Inr (acc1, sub1), s')
       \<and> process_items [x] acc1 sub1 s' = (Inl e, s')"
      by (elim exE)
    have "process_items (it # pre) acc sub s = (Inr (acc1, sub1), s')"
      using split it process_items_step[OF debited(1,2,3), of pre acc sub] by simp
    with split have "it # rest = (it # pre) @ x # post
      \<and> process_items (it # pre) acc sub s = (Inr (acc1, sub1), s')
      \<and> process_items [x] acc1 sub1 s' = (Inl e, s')" by simp
    then show ?thesis by (intro exI)
  qed
qed

lemma process_items_single_acc:
  "process_items [x] acc sub s = (Inl e, s') \<Longrightarrow> process_items [x] acc2 sub2 s = (Inl e, s')"
  by (cases x) (auto simp: Let_def split: option.splits if_splits)

lemma valid_prefix_quantities:
  "request_valid r \<Longrightarrow> req_items r = pre @ post \<Longrightarrow>
     list_all (\<lambda>i. 0 \<le> quantity_value (snd i)) pre"
proof -
  assume valid: "request_valid r" and shape: "req_items r = pre @ post"
  have "0 \<le> quantity_value (snd i)" if "i \<in> set pre" for i
  proof -
    from that shape have "i \<in> set (req_items r)" by simp
    with valid have "isInt 1 (snd i)"
      by (auto simp: request_valid_def list_all_iff)
    from isInt_value[OF this] show ?thesis by simp
  qed
  then show ?thesis by (simp add: list_all_iff)
qed

section \<open>The ledger invariant\<close>

lemma ledger_step_refl: "stock_nonneg s \<Longrightarrow> ledger_step s s"
  by (simp add: ledger_step_def)

lemma ledger_step_trans:
  assumes "ledger_step s s1" and "ledger_step s1 s2"
  shows "ledger_step s s2"
proof -
  from assms(1) obtain n1 where n1: "transactions s1 = transactions s @ n1 \<and> list_all tx_consistent n1"
    unfolding ledger_step_def by (elim conjE exE) simp
  from assms(2) obtain n2 where n2: "transactions s2 = transactions s1 @ n2 \<and> list_all tx_consistent n2"
    unfolding ledger_step_def by (elim conjE exE) simp
  have "transactions s2 = transactions s @ (n1 @ n2) \<and> list_all tx_consistent (n1 @ n2)"
    using n1 n2 by simp
  then have "\<exists>new. transactions s2 = transactions s @ new \<and> list_all tx_consistent new"
    by (rule exI)
  with assms(2) show ?thesis by (simp add: ledger_step_def)
qed

lemma ledger_step_write:
  assumes "stock_nonneg s" and "products s pid = Some p" and "0 \<le> n"
    and "tx_consistent t"
  shows "ledger_step s (transaction_save t (product_save pid (p\<lparr>stockCount := n\<rparr>) s))"
proof -
  let ?s' = "transaction_save t (product_save pid (p\<lparr>stockCount := n\<rparr>) s)"
  have "stock_nonneg ?s'"
    using assms(1,3)
    by (auto simp: stock_nonneg_def transaction_save_def product_save_def product_pre_save_def)
  moreover have "transactions ?s' = transactions s @ [t] \<and> list_all tx_consistent [t]"
    using assms(4) by (simp add: transaction_save_def product_save_def)
  then have "\<exists>new. transactions ?s' = transactions s @ new \<and> list_all tx_consistent new"
    by (rule exI)
  ultimately show ?thesis by (simp add: ledger_step_def)
qed

lemma ledger_step_same:
  "stock_nonneg s \<Longrightarrow> products s' = products s \<Longrightarrow> transactions s' = transactions s
     \<Longrightarrow> ledger_step s s'"
  by (simp add: ledger_step_def stock_nonneg_def)

lemma sent_as_number_plus:
  assumes "sent_as_number q" and "0 \<le> quantity_value q" and "\<not> a < quantity_value q"
    and "a \<le> 2 ^ 53"
  shows "js_plus (js_minus a q) q = Some a"
proof -
  from assms(1) obtain n where n: "q = Num n" by (cases q) (simp_all add: sent_as_number_def)
  have down: "js_minus a q = a - quantity_value q"
    using assms(3,2,4) by (rule js_minus_exact)
  from assms have "\<bar>a\<bar> \<le> 2 ^ 53" by simp
  then have "round53 a = a" by (rule round53_exact)
  with n down show ?thesis by (simp add: js_plus_def quantity_value_def)
qed

lemma ledger_step_process_items:
  "stock_nonneg s \<Longrightarrow> stock_in_range s \<Longrightarrow>
   list_all (\<lambda>i. sent_as_number (snd i) \<and> 1 \<le> quantity_value (snd i)) its \<Longrightarrow>
   ledger_step s (snd (process_items its acc sub s))"
proof (induction its arbitrary: acc sub s)
  case Nil
  then show ?case by (simp add: ledger_step_refl)
next
  case (Cons it rest)
  obtain pid qty where it: "it = (pid, qty)" by (cases it)
  from Cons.prems(3) it have q: "sent_as_number qty" "1 \<le> quantity_value qty"
    and rest: "list_all (\<lambda>i. sent_as_number (snd i) \<and> 1 \<le> quantity_value (snd i)) rest"
    by simp_all
  show ?case
  proof (cases rule: process_items_cases[of s pid qty rest acc sub])
    case missing
    with it Cons.prems show ?thesis by (simp add: ledger_step_refl)
  next
    case (short p)
    with it Cons.prems show ?thesis by (simp add: ledger_step_refl)
  next
    case (refused p)
    from Cons.prems(2) refused(1) have top: "stockCount p \<le> 2 ^ 53"
      by (simp add: stock_in_range_def)
    from q refused(2) top have "js_plus (js_minus (stockCount p) qty) qty = Some (stockCount p)"
      by (intro sent_as_number_plus) simp_all
    moreover note refused(3)
    ultimately show ?thesis by simp
  next
    case (debited p prev)
    let ?s1 = "debit_line pid qty p prev s"
    from Cons.prems(2) debited(1) have top: "stockCount p \<le> 2 ^ 53"
      by (simp add: stock_in_range_def)
    from q have v0: "0 \<le> quantity_value qty" by simp
    have exact: "js_minus (stockCount p) qty = stockCount p - quantity_value qty"
      using debited(2) v0 top by (rule js_minus_exact)
    from q(1) v0 debited(2) top have "js_plus (js_minus (stockCount p) qty) qty = Some (stockCount p)"
      by (rule sent_as_number_plus)
    with debited(3) have prev: "prev = stockCount p" by simp
    let ?t = "\<lparr>tx_product = pid, tx_type = OUT, tx_quantity = quantity_value qty,
                previousStock = prev, newStock = js_minus (stockCount p) qty\<rparr>"
    have "tx_consistent ?t"
      using prev exact debited(2) q(2) by (simp add: tx_consistent_def)
    moreover have "0 \<le> js_minus (stockCount p) qty" using debited(2) by (rule js_minus_nonneg)
    ultimately have one: "ledger_step s ?s1"
      unfolding debit_line_def using Cons.prems(1) debited(1) by (intro ledger_step_write)
    then have nn1: "stock_nonneg ?s1" by (simp add: ledger_step_def)
    have range1: "stock_in_range ?s1"
      using Cons.prems(2) top v0 exact by (auto simp: stock_in_range_def debit_line_fields)
    from Cons.IH[OF nn1 range1 rest] debited(4) it
    have "ledger_step ?s1 (snd (process_items (it # rest) acc sub s))" by simp
    with one show ?thesis by (rule ledger_step_trans)
  qed
qed

lemma ledger_step_handle:
  assumes nn: "stock_nonneg s" and range: "stock_in_range s" and exact: "exact_request s r"
  shows "ledger_step s (handle r s)"
proof (cases r)
  case (AddStock pid qty reason)
  show ?thesis
  proof (cases "isInt 1 qty \<and> reason \<noteq> [] \<and> products s pid \<noteq> None")
    case False
    with nn AddStock show ?thesis
      by (auto simp: add_stock_def ledger_step_refl split: option.splits)
  next
    case True
    then obtain p where p: "products s pid = Some p" by auto
    with nn have low: "0 \<le> stockCount p" by (simp add: stock_nonneg_def)
    from exact AddStock p have number: "sent_as_number qty"
      and top: "stockCount p + quantity_value qty \<le> 2 ^ 53" by simp_all
    from True have v: "1 \<le> quantity_value qty" using isInt_value[of 1 qty] by simp
    from number obtain n where n: "qty = Num n" by (cases qty) (simp_all add: sent_as_number_def)
    from low v top have "\<bar>stockCount p + quantity_value qty\<bar> \<le> 2 ^ 53" by simp
    then have "round53 (stockCount p + quantity_value qty) = stockCount p + quantity_value qty"
      by (rule round53_exact)
    with n have sum: "js_plus (stockCount p) qty = Some (stockCount p + quantity_value qty)"
      by (simp add: js_plus_def quantity_value_def)
    have "ledger_step s (transaction_save
        \<lparr>tx_product = pid, tx_type = IN, tx_quantity = quantity_value qty,
           previousStock = stockCount p, newStock = stockCount p + quantity_value qty\<rparr>
        (product_save pid (p\<lparr>stockCount := stockCount p + quantity_value qty\<rparr>) s))"
      using nn p low v by (intro ledger_step_write) (simp_all add: tx_consistent_def)
    with True p sum AddStock show ?thesis by (simp add: add_stock_def Let_def)
  qed
next
  case (RemoveStock pid qty reason)
  show ?thesis
  proof (cases "1 \<le> qty \<and> reason \<noteq> [] \<and> products s pid \<noteq> None")
    case False
    with nn RemoveStock show ?thesis
      by (auto simp: remove_stock_def ledger_step_refl split: option.splits)
  next
    case True
    then obtain p where p: "products s pid = Some p" by auto
    with nn have "0 \<le> stockCount p" by (simp add: stock_nonneg_def)
    with True have "ledger_step s (transaction_save
        \<lparr>tx_product = pid, tx_type = OUT, tx_quantity = qty,
           previousStock = stockCount p, newStock = max 0 (stockCount p - qty)\<rparr>
        (product_save pid (p\<lparr>stockCount := max 0 (stockCount p - qty)\<rparr>) s))"
      using nn p by (intro ledger_step_write) (simp_all add: tx_consistent_def)
    with True p RemoveStock show ?thesis by (simp add: remove_stock_def Let_def)
  qed
next
  case (AdjustStock pid qty reason)
  show ?thesis
  proof (cases "0 \<le> qty \<and> reason \<noteq> [] \<and> products s pid \<noteq> None")
    case False
    with nn AdjustStock show ?thesis
      by (auto simp: adjust_stock_def ledger_step_refl split: option.splits)
  next
    case True
    then obtain p where p: "products s pid = Some p" by auto
    with nn have "0 \<le> stockCount p" by (simp add: stock_nonneg_def)
    with True have "ledger_step s (transaction_save
        \<lparr>tx_product = pid, tx_type = ADJUSTMENT, tx_quantity = \<bar>qty - stockCount p\<bar>,
           previousStock = stockCount p, newStock = qty\<rparr>
        (product_save pid (p\<lparr>stockCount := qty\<rparr>) s))"
      using nn p by (intro ledger_step_write) (simp_all add: tx_consistent_def)
    with True p AdjustStock show ?thesis by (simp add: adjust_stock_def Let_def)
  qed
next
  case (GenerateBill now actor req)
  show ?thesis
  proof (cases "request_valid req")
    case False
    then have "snd (generate_bill now actor req s) = s" by (simp add: generate_bill_rejected)
    with nn GenerateBill show ?thesis by (simp add: ledger_step_refl)
  next
    case True
    have "sent_as_number (snd i) \<and> 1 \<le> quantity_value (snd i)" if "i \<in> set (req_items req)" for i
    proof -
      from that exact GenerateBill have "sent_as_number (snd i)"
        by (auto simp: list_all_iff)
      moreover from that True have "isInt 1 (snd i)"
        by (auto simp: request_valid_def list_all_iff)
      then have "1 \<le> quantity_value (snd i)" by (rule isInt_value)
      ultimately show ?thesis by simp
    qed
    then have "list_all (\<lambda>i. sent_as_number (snd i) \<and> 1 \<le> quantity_value (snd i)) (req_items req)"
      by (simp add: list_all_iff)
    with nn range have loop: "ledger_step s (snd (process_items (req_items req) [] 0 s))"
      by (rule ledger_step_process_items)
    have "ledger_step s (snd (generate_bill now actor req s))"
      using generate_bill_outcome[of now actor req s, THEN conjunct2] loop nn
      by (elim disjE) (simp_all add: ledger_step_refl)
    with GenerateBill show ?thesis by simp
  qed
next
  case (UpdateBillStatus now ident st)
  with nn update_bill_status_ledger[of now ident st s] show ?thesis
    by (simp add: ledger_step_same)
qed

section \<open>Saving a bill\<close>



section \<open>The model on numeric strings and on large numbers\<close>

text \<open>
  Adding the string \<open>4\<close> to a stock of 5 stores 54; adding \<open>+4\<close> fails at the product's
  save. A bill line for the string \<open>3\<close> records 23 as the previous stock; one for \<open>+3\<close>
  debits the product and fails at the transaction's save. Above \<open>2 ^ 53\<close> sums are
  rounded.
\<close>

lemma string_quantity_examples:
  "fst (add_stock 1 (Str ''4'') ''restock'' shop)
     = Inr (\<lparr>tx_product = 1, tx_type = IN, tx_quantity = 4, previousStock = 5, newStock = 54\<rparr>, 54)"
  "add_stock 1 (Str ''+4'') ''restock'' shop = (Inl ServerError, shop)"
  "transactions (snd (generate_bill 1700000000000 9 (first_request\<lparr>req_items := [(1, Str ''3'')]\<rparr>) shop))
     = [\<lparr>tx_product = 1, tx_type = OUT, tx_quantity = 3, previousStock = 23, newStock = 2\<rparr>]"
  "fst (generate_bill 1700000000000 9 (first_request\<lparr>req_items := [(1, Str ''+3'')]\<rparr>) shop)
     = Inl ServerError"
  "transactions (snd (generate_bill 1700000000000 9 (first_request\<lparr>req_items := [(1, Str ''+3'')]\<rparr>) shop))
     = []"
  "map_option stockCount
     (products (snd (generate_bill 1700000000000 9 (first_request\<lparr>req_items := [(1, Str ''+3'')]\<rparr>) shop)) 1)
     = Some 2"
  by (simp_all add: add_stock_def generate_bill_def compose_bill_def js_total_def
        sample_defs string_defs)

lemma rounding_examples:
  "round53 (2 ^ 53 + 1) = 2 ^ 53"
  "round53 (2 ^ 53 + 3) = 2 ^ 53 + 4"
  by (simp_all add: round53_def round_to_def bit_length.simps Let_def)

section \<open>Bill generation: failure and partial debits\<close>

text \<open>
  Claim C1, as amended. GenerateBill checks and debits its lines one at a time, in request
  order: a line's availability check comes before that line's own debit, not before the
  debits of the lines in front of it. When the request is answered with a validation
  failure, with AdminNotFound or with a line's failure, no Bill is produced. A request
  rejected by validation or for its admin leaves the database unchanged. When a line \<open>x\<close>
  fails (ProductNotFound or InsufficientStock), that line and the lines after it change
  nothing, and each line before it stays debited: the database is the one the lines before
  \<open>x\<close> left, with one OUT transaction per earlier line, in order, and, for stock counts of
  at most \<open>2 ^ 53\<close>, each product's stock lowered by what the earlier lines asked of it.
  When the first line is the failing one, the database is unchanged. (The requests answered
  with status 500 are not part of this claim.)
\<close>

theorem generate_bill_failure:
  assumes "generate_bill now actor r s = (Inl e, s')" and "e \<noteq> ServerError"
  shows "bills s' = bills s \<and> users s' = users s
       \<and> ((e = ValidationFailed \<or> e = AdminNotFound) \<and> s' = s
          \<or> (\<exists>pre x post. req_items r = pre @ x # post
                \<and> (\<exists>lines sub. process_items pre [] 0 s = (Inr (lines, sub), s'))
                \<and> process_items [x] [] 0 s' = (Inl e, s')
                \<and> (\<exists>txs. transactions s' = transactions s @ txs
                      \<and> map (\<lambda>t. (tx_product t, tx_quantity t)) txs
                          = map (\<lambda>i. (fst i, quantity_value (snd i))) pre
                      \<and> list_all (\<lambda>t. tx_type t = OUT) txs)
                \<and> (stock_in_range s \<longrightarrow>
                     (\<forall>q. map_option stockCount (products s' q)
                        = map_option (\<lambda>n. n - requested q pre) (map_option stockCount (products s q))))
                \<and> (pre = [] \<longrightarrow> s' = s)))"
proof (cases "request_valid r \<and> admin_exists s (req_adminId r)")
  case False
  from generate_bill_rejected[OF False, of now actor] assms show ?thesis by auto
next
  case True
  obtain res s1 where loop: "process_items (req_items r) [] 0 s = (res, s1)"
    by (cases "process_items (req_items r) [] 0 s")
  show ?thesis
  proof (cases res)
    case (Inr ok)
    obtain lines sub where "ok = (lines, sub)" by (cases ok)
    with True loop Inr assms show ?thesis by (simp add: generate_bill_save_refused)
  next
    case (Inl e1)
    with True loop assms have e: "e1 = e" "s1 = s'" by (simp_all add: generate_bill_line_failed)
    with loop Inl have failed: "process_items (req_items r) [] 0 s = (Inl e, s')" by simp
    from process_items_failure[OF failed assms(2)] obtain pre x post acc1 sub1 where split:
      "req_items r = pre @ x # post
       \<and> process_items pre [] 0 s = (Inr (acc1, sub1), s')
       \<and> process_items [x] acc1 sub1 s' = (Inl e, s')"
      by (elim exE)
    then have pre: "process_items pre [] 0 s = (Inr (acc1, sub1), s')" by simp
    then have through: "\<exists>lines sub. process_items pre [] 0 s = (Inr (lines, sub), s')" by (intro exI)
    have same: "bills s' = bills s \<and> users s' = users s"
      using process_items_bills_users[of pre "[]" 0 s] pre by simp
    have first: "pre = [] \<longrightarrow> s' = s" using pre by auto
    from True split have quantities: "list_all (\<lambda>i. 0 \<le> quantity_value (snd i)) pre"
      using valid_prefix_quantities[of r pre "x # post"] by simp
    have stock: "stock_in_range s \<longrightarrow>
                     (\<forall>q. map_option stockCount (products s' q)
                        = map_option (\<lambda>n. n - requested q pre) (map_option stockCount (products s q)))"
      using process_items_stock[OF pre _ quantities] by simp
    have "req_items r = pre @ x # post
          \<and> (\<exists>lines sub. process_items pre [] 0 s = (Inr (lines, sub), s'))
          \<and> process_items [x] [] 0 s' = (Inl e, s')
          \<and> (\<exists>txs. transactions s' = transactions s @ txs
                \<and> map (\<lambda>t. (tx_product t, tx_quantity t)) txs
                    = map (\<lambda>i. (fst i, quantity_value (snd i))) pre
                \<and> list_all (\<lambda>t. tx_type t = OUT) txs)
          \<and> (stock_in_range s \<longrightarrow>
                     (\<forall>q. map_option stockCount (products s' q)
                        = map_option (\<lambda>n. n - requested q pre) (map_option stockCount (products s q))))
          \<and> (pre = [] \<longrightarrow> s' = s)"
      using split through process_items_log[OF pre] first stock
        process_items_single_acc[of x acc1 sub1 s' e s' "[]" 0]
      by simp
    then have "\<exists>pre x post. req_items r = pre @ x # post
          \<and> (\<exists>lines sub. process_items pre [] 0 s = (Inr (lines, sub), s'))
          \<and> process_items [x] [] 0 s' = (Inl e, s')
          \<and> (\<exists>txs. transactions s' = transactions s @ txs
                \<and> map (\<lambda>t. (tx_product t, tx_quantity t)) txs
                    = map (\<lambda>i. (fst i, quantity_value (snd i))) pre
                \<and> list_all (\<lambda>t. tx_type t = OUT) txs)
          \<and> (stock_in_range s \<longrightarrow>
                     (\<forall>q. map_option stockCount (products s' q)
                        = map_option (\<lambda>n. n - requested q pre) (map_option stockCount (products s q))))
          \<and> (pre = [] \<longrightarrow> s' = s)"
      by (intro exI)
    with same show ?thesis by simp
  qed
qed

theorem generate_bill_failure_witness:
  "fst (generate_bill 1700000000000 9 two_line_request shop)
     = Inl (InsufficientStock ''Reader'' 2 (Num 5))
   \<and> bills (snd (generate_bill 1700000000000 9 two_line_request shop)) = bills shop"
proof -
  have outcome: "fst (generate_bill 1700000000000 9 two_line_request shop)
     = Inl (InsufficientStock ''Reader'' 2 (Num 5))"
    by (simp add: generate_bill_def compose_bill_def sample_defs)
  then have failed: "generate_bill 1700000000000 9 two_line_request shop
     = (Inl (InsufficientStock ''Reader'' 2 (Num 5)),
        snd (generate_bill 1700000000000 9 two_line_request shop))"
    by (simp add: prod_eq_iff)
  have line: "InsufficientStock ''Reader'' 2 (Num 5) \<noteq> ServerError" by simp
  from generate_bill_failure [OF failed line]
  have "bills (snd (generate_bill 1700000000000 9 two_line_request shop)) = bills shop"
    by (rule conjunct1)
  with outcome show ?thesis by (rule conjI)
qed

text \<open>
  Claim C1 as the specification states it (every check before any debit, nothing changed
  when a line fails) does not hold: with 5 Aviators and 2 Readers in stock, a request for
  3 Aviators and then 5 Readers fails on the second line after the first line was debited.
\<close>

theorem generate_bill_not_all_or_nothing:
  "fst (generate_bill 1700000000000 9 two_line_request shop)
     = Inl (InsufficientStock ''Reader'' 2 (Num 5))
   \<and> map_option stockCount (products shop 1) = Some 5
   \<and> map_option stockCount (products (snd (generate_bill 1700000000000 9 two_line_request shop)) 1)
       = Some 2
   \<and> transactions shop = []
   \<and> transactions (snd (generate_bill 1700000000000 9 two_line_request shop))
       = [\<lparr>tx_product = 1, tx_type = OUT, tx_quantity = 3, previousStock = 5, newStock = 2\<rparr>]"
  by (simp add: generate_bill_def compose_bill_def sample_defs)

section \<open>Bill generation: a single line beyond the stock\<close>

text \<open>
  Claim C2. A GenerateBill request with a single line whose quantity exceeds the product's
  stock count fails and leaves the whole database as it was: the stock count is unchanged,
  no transaction is appended and no bill is created. Once the request has passed validation
  and names an existing admin, the failure is InsufficientStock with the product's name, the
  available count and the requested quantity.
\<close>

theorem generate_bill_single_line_insufficient:
  assumes "products s pid = Some p" and "stockCount p < quantity_value qty"
    and "req_items r = [(pid, qty)]"
  shows "snd (generate_bill now actor r s) = s
       \<and> (\<exists>e. fst (generate_bill now actor r s) = Inl e)
       \<and> (request_valid r \<and> admin_exists s (req_adminId r) \<longrightarrow>
            fst (generate_bill now actor r s) = Inl (InsufficientStock (name p) (stockCount p) qty))"
  using assms by (simp add: generate_bill_def compose_bill_def)

theorem generate_bill_single_line_insufficient_witness:
  "snd (generate_bill 1700000000000 9 single_line_request shop) = shop
   \<and> fst (generate_bill 1700000000000 9 single_line_request shop)
       = Inl (InsufficientStock ''Reader'' 2 (Num 5))"
  using generate_bill_single_line_insufficient
    [where s = shop and pid = 2 and qty = "Num 5" and r = single_line_request
       and p = "\<lparr>name = ''Reader'', price = 4, stockCount = 2, inStock = True\<rparr>"
       and now = 1700000000000 and actor = 9]
  by (simp add: sample_defs)

section \<open>The transaction records\<close>

text \<open>
  Claim C3, as amended. Starting from a database whose stock counts are non-negative, along
  a run of requests (add-stock, remove-stock, adjust-stock, bill generation) that stays in
  the range of exact integer arithmetic, with the quantities of add-stock and of bill lines
  sent as JSON numbers, every transaction record appended has non-negative previousStock
  and newStock, and: for IN, newStock - previousStock = quantity; for OUT,
  newStock = max 0 (previousStock - quantity), which is previousStock - quantity only while
  the quantity does not exceed previousStock; for ADJUSTMENT,
  quantity = |newStock - previousStock|. An adjust-stock record has the requested target as
  its newStock. The stock counts stay non-negative along the run.
\<close>

theorem transactions_consistent:
  assumes "stock_nonneg s" and "exact_run rs s"
  shows "stock_nonneg (run rs s)
       \<and> (\<exists>new. transactions (run rs s) = transactions s @ new \<and> list_all tx_consistent new)
       \<and> (\<forall>pid target reason t n.
             fst (adjust_stock pid target reason s) = Inr (t, n) \<longrightarrow>
               tx_type t = ADJUSTMENT \<and> newStock t = target \<and> n = target)"
proof -
  have "ledger_step s (run rs s)" using assms
  proof (induction rs arbitrary: s)
    case Nil
    then show ?case by (simp add: ledger_step_refl)
  next
    case (Cons r rs)
    from Cons.prems have one: "ledger_step s (handle r s)"
      by (intro ledger_step_handle) simp_all
    then have "stock_nonneg (handle r s)" by (simp add: ledger_step_def)
    with Cons.prems have "ledger_step (handle r s) (run rs (handle r s))"
      by (intro Cons.IH) simp_all
    with one show ?case by (simp add: ledger_step_trans)
  qed
  then have "stock_nonneg (run rs s)
       \<and> (\<exists>new. transactions (run rs s) = transactions s @ new \<and> list_all tx_consistent new)"
    by (simp add: ledger_step_def)
  moreover have "fst (adjust_stock pid target reason s) = Inr (t, n) \<longrightarrow>
               tx_type t = ADJUSTMENT \<and> newStock t = target \<and> n = target" for pid target reason t n
    by (auto simp: adjust_stock_def Let_def split: option.splits if_splits)
  ultimately show ?thesis by simp
qed

theorem transactions_consistent_witness:
  "stock_nonneg shop
   \<and> exact_run [AddStock 1 (Num 4) ''restock'', RemoveStock 2 5 ''damaged'',
                AdjustStock 1 0 ''stocktake'', GenerateBill 1700000000000 9 first_request] shop
   \<and> (\<exists>new. transactions
         (run [AddStock 1 (Num 4) ''restock'', RemoveStock 2 5 ''damaged'',
               AdjustStock 1 0 ''stocktake'', GenerateBill 1700000000000 9 first_request] shop)
           = transactions shop @ new
        \<and> list_all tx_consistent new)"
proof -
  have start: "stock_nonneg shop"
    by (simp add: stock_nonneg_def shop_def)
  have exact: "exact_run [AddStock 1 (Num 4) ''restock'', RemoveStock 2 5 ''damaged'',
                AdjustStock 1 0 ''stocktake'', GenerateBill 1700000000000 9 first_request] shop"
    by (simp add: stock_in_range_def sent_as_number_def add_stock_def remove_stock_def
          adjust_stock_def sample_defs)
  from transactions_consistent [OF start exact] start exact
  show ?thesis by simp
qed

text \<open>
  Claim C3 as the specification states it (newStock - previousStock = -quantity for every
  OUT record) does not hold: removing 5 Readers when 2 are in stock records an OUT of 5
  from 2 to 0.
\<close>

theorem remove_stock_out_not_minus_quantity:
  "transactions (snd (remove_stock 2 5 ''damaged'' shop))
     = [\<lparr>tx_product = 2, tx_type = OUT, tx_quantity = 5, previousStock = 2, newStock = 0\<rparr>]
   \<and> newStock (last (transactions (snd (remove_stock 2 5 ''damaged'' shop))))
       - previousStock (last (transactions (snd (remove_stock 2 5 ''damaged'' shop))))
     \<noteq> - tx_quantity (last (transactions (snd (remove_stock 2 5 ''damaged'' shop))))"
  by (simp add: remove_stock_def sample_defs)

section \<open>Pricing\<close>

text \<open>
  Claim C4 fails on the code. For a request of 3 Aviators at 10 with the tax sent as the
  string \<open>5\<close>, which \<open>isFloat\<close> accepts, the handler builds a bill with subtotal 30, tax 5
  and discount 0 whose total is 305, not 35: \<open>subtotal + tax\<close> appends the string to the
  printed subtotal. The bill is then refused by its save, and the request is answered with
  status 500.
\<close>

theorem string_tax_total:
  "fst (compose_bill 9 string_tax_request shop)
     = Inr \<lparr>billNumber = None, adminId = 7,
            items = [\<lparr>item_product = 1, item_quantity = 3, unitPrice = 10, totalPrice = 30\<rparr>],
            subtotal = 30, tax = 5, discount = 0, bill_total = Some 305, status = PENDING,
            dueDate = 1702592000000, generatedBy = 9\<rparr>
   \<and> fst (generate_bill 1700000000000 9 string_tax_request shop) = Inl ServerError"
proof -
  have tax: "parse_float ''5'' = Some 5"
    by (simp add: parse_float_def unsigned_part_def is_digit_def nat_of_string_def)
  have total: "parse_float (number_string 30 @ ''5'') = Some 305"
    by (simp add: number_string_def int_string_def sample_numerals
          parse_float_def unsigned_part_def is_digit_def nat_of_string_def)
  have composed: "fst (compose_bill 9 string_tax_request shop)
     = Inr \<lparr>billNumber = None, adminId = 7,
            items = [\<lparr>item_product = 1, item_quantity = 3, unitPrice = 10, totalPrice = 30\<rparr>],
            subtotal = 30, tax = 5, discount = 0, bill_total = Some 305, status = PENDING,
            dueDate = 1702592000000, generatedBy = 9\<rparr>"
    by (simp add: compose_bill_def js_total_def tax total sample_defs)
  have "fst (generate_bill 1700000000000 9 string_tax_request shop) = Inl ServerError"
    by (simp add: generate_bill_def compose_bill_def js_total_def tax total sample_defs)
  with composed show ?thesis by (rule conjI)
qed

section \<open>Decrease clamps at zero\<close>

text \<open>
  Claim C5. For every existing product and every positive integer quantity (with the
  required reason given), remove-stock succeeds whatever the stock: it sets the product's
  stockCount to max 0 (previousStock - quantity), saves the product, appends one OUT
  transaction and returns the new stock count.
\<close>

theorem remove_stock_clamps:
  assumes "products s pid = Some p" and "1 \<le> qty" and "reason \<noteq> []"
  shows "\<exists>t s'. remove_stock pid qty reason s = (Inr (t, max 0 (stockCount p - qty)), s')
           \<and> t = \<lparr>tx_product = pid, tx_type = OUT, tx_quantity = qty,
                  previousStock = stockCount p, newStock = max 0 (stockCount p - qty)\<rparr>
           \<and> products s' = (products s)(pid \<mapsto> p\<lparr>stockCount := max 0 (stockCount p - qty),
                                                    inStock := (0 < max 0 (stockCount p - qty))\<rparr>)
           \<and> transactions s' = transactions s @ [t]
           \<and> bills s' = bills s \<and> users s' = users s"
  using assms
  by (simp add: remove_stock_def product_save_def transaction_save_def product_pre_save_def Let_def)

theorem remove_stock_clamps_witness:
  "fst (remove_stock 2 5 ''damaged'' shop) =
     Inr (\<lparr>tx_product = 2, tx_type = OUT, tx_quantity = 5, previousStock = 2, newStock = 0\<rparr>, 0)
   \<and> map_option stockCount (products (snd (remove_stock 2 5 ''damaged'' shop)) 2) = Some 0"
  using remove_stock_clamps [where s = shop and pid = 2 and qty = 5 and reason = "''damaged''"
      and p = "\<lparr>name = ''Reader'', price = 4, stockCount = 2, inStock = True\<rparr>"]
  by (auto simp: shop_def)

section \<open>Stock never negative\<close>

text \<open>
  Claim C6. A product whose stockCount is non-negative keeps a non-negative stockCount after
  any sequence of requests: add-stock, remove-stock and adjust-stock (each rejects a quantity
  that fails its validation), and bill generation and status updates as well.
\<close>

theorem stock_never_negative:
  "products s q = Some p \<Longrightarrow> 0 \<le> stockCount p \<Longrightarrow>
     \<exists>p'. products (run rs s) q = Some p' \<and> 0 \<le> stockCount p'"
proof (induction rs arbitrary: s p)
  case Nil
  then show ?case by simp
next
  case (Cons r rs)
  from handle_stock_nonneg[OF Cons.prems, of r] obtain p1 where
    "products (handle r s) q = Some p1 \<and> 0 \<le> stockCount p1" ..
  then have "\<exists>p'. products (run rs (handle r s)) q = Some p' \<and> 0 \<le> stockCount p'"
    using Cons.IH[of "handle r s" p1] by simp
  then show ?case by simp
qed

theorem stock_never_negative_witness:
  "map_option stockCount
     (products (run [RemoveStock 2 5 ''damaged'', AddStock 2 (Num 1) ''restock'',
                     AdjustStock 2 0 ''stocktake'', RemoveStock 2 1 ''lost''] shop) 2) = Some 0
   \<and> (\<exists>p'. products (run [RemoveStock 2 5 ''damaged'', AddStock 2 (Num 1) ''restock'',
                           AdjustStock 2 0 ''stocktake'', RemoveStock 2 1 ''lost''] shop) 2 = Some p'
          \<and> 0 \<le> stockCount p')"
proof -
  have there: "products shop 2 = Some \<lparr>name = ''Reader'', price = 4, stockCount = 2, inStock = True\<rparr>"
    by (simp add: shop_def)
  have "map_option stockCount
     (products (run [RemoveStock 2 5 ''damaged'', AddStock 2 (Num 1) ''restock'',
                     AdjustStock 2 0 ''stocktake'', RemoveStock 2 1 ''lost''] shop) 2) = Some 0"
    by (simp add: remove_stock_def add_stock_def adjust_stock_def sample_defs)
  with stock_never_negative [OF there,
      of "[RemoveStock 2 5 ''damaged'', AddStock 2 (Num 1) ''restock'',
           AdjustStock 2 0 ''stocktake'', RemoveStock 2 1 ''lost'']"]
  show ?thesis by simp
qed

section \<open>Bill numbers\<close>

text \<open>
  Claim C7 fails on the code. A bill without a bill number is refused by its save, whatever
  its other fields: the required bill number is validated before the hook that would set it
  runs. So GenerateBill never returns a bill: a request of 3 Aviators on the sample database
  is answered with status 500, with the stock debited from 5 to 2, one OUT record written
  and no bill stored. The hook alone, given the bill the handler built, would have numbered
  it \<open>BILL-1700000000000-1\<close>.
\<close>

theorem unnumbered_bill_never_saved:
  "bill_save now ident (b\<lparr>billNumber := None\<rparr>) s = None
   \<and> (\<exists>e. fst (generate_bill now actor r s) = Inl e)
   \<and> fst (generate_bill 1700000000000 9 first_request shop) = Inl ServerError
   \<and> bills (snd (generate_bill 1700000000000 9 first_request shop)) = []
   \<and> map_option stockCount (products (snd (generate_bill 1700000000000 9 first_request shop)) 1)
       = Some 2
   \<and> transactions (snd (generate_bill 1700000000000 9 first_request shop))
       = [\<lparr>tx_product = 1, tx_type = OUT, tx_quantity = 3, previousStock = 5, newStock = 2\<rparr>]
   \<and> billNumber (bill_pre_save 1700000000000 (length (bills shop))
        (new_bill 7 [\<lparr>item_product = 1, item_quantity = 3, unitPrice = 10, totalPrice = 30\<rparr>]
           30 0 0 (Some 30) 1702592000000 9))
       = Some ''BILL-1700000000000-1''"
proof -
  have refused: "bill_save now ident (b\<lparr>billNumber := None\<rparr>) s = None"
    by (simp add: bill_save_def bill_valid_def no_billNumber_def)
  have never: "\<exists>e. fst (generate_bill now actor r s) = Inl e"
    using generate_bill_outcome[of now actor r s] by (rule conjunct1)
  have run: "fst (generate_bill 1700000000000 9 first_request shop) = Inl ServerError
   \<and> bills (snd (generate_bill 1700000000000 9 first_request shop)) = []
   \<and> map_option stockCount (products (snd (generate_bill 1700000000000 9 first_request shop)) 1)
       = Some 2
   \<and> transactions (snd (generate_bill 1700000000000 9 first_request shop))
       = [\<lparr>tx_product = 1, tx_type = OUT, tx_quantity = 3, previousStock = 5, newStock = 2\<rparr>]"
    by (simp add: generate_bill_def compose_bill_def js_total_def sample_defs)
  have hook: "billNumber (bill_pre_save 1700000000000 (length (bills shop))
        (new_bill 7 [\<lparr>item_product = 1, item_quantity = 3, unitPrice = 10, totalPrice = 30\<rparr>]
           30 0 0 (Some 30) 1702592000000 9))
       = Some ''BILL-1700000000000-1''"
    by (simp add: sample_defs sample_numerals)
  from refused never run hook show ?thesis by simp
qed

section \<open>Bill status\<close>




section \<open>The inStock flag\<close>

text \<open>
  Claim C10. Saving a product stores it with inStock recomputed as stockCount > 0, the stock
  count itself untouched; so after any request (add-stock, remove-stock, adjust-stock, bill
  generation, status update) every product is either as it was before the request or has
  inStock equal to (stockCount > 0).
\<close>

theorem inStock_follows_stockCount:
  "products (product_save pid p s) pid = Some (product_pre_save p)
   \<and> stockCount (product_pre_save p) = stockCount p
   \<and> inStock (product_pre_save p) = (0 < stockCount p)
   \<and> (products (handle r s) q = products s q
      \<or> (\<exists>p'. products (handle r s) q = Some p' \<and> inStock p' = (0 < stockCount p')))"
proof -
  have "products (handle r s) q = products s q
      \<or> (\<exists>p'. products (handle r s) q = Some p' \<and> inStock p' = (0 < stockCount p'))"
  proof (cases r)
    case (AddStock pid qty reason)
    then show ?thesis
      by (auto simp: add_stock_def Let_def product_save_def transaction_save_def
            product_pre_save_def split: option.splits)
  next
    case (RemoveStock pid qty reason)
    then show ?thesis
      by (auto simp: remove_stock_def Let_def product_save_def transaction_save_def
            product_pre_save_def split: option.splits)
  next
    case (AdjustStock pid qty reason)
    then show ?thesis
      by (auto simp: adjust_stock_def Let_def product_save_def transaction_save_def
            product_pre_save_def split: option.splits)
  next
    case (GenerateBill now actor req)
    have "products (snd (generate_bill now actor req s)) q = products s q
      \<or> (\<exists>p'. products (snd (generate_bill now actor req s)) q = Some p'
             \<and> inStock p' = (0 < stockCount p'))"
      using generate_bill_outcome[of now actor req s, THEN conjunct2]
        process_items_changed_or_flag[of "req_items req" "[]" 0 s q]
      by (elim disjE) simp_all
    with GenerateBill show ?thesis by simp
  next
    case (UpdateBillStatus now ident st)
    with update_bill_status_ledger[of now ident st s] show ?thesis by simp
  qed
  then show ?thesis by (simp add: product_save_def product_pre_save_def)
qed

theorem inStock_follows_stockCount_witness:
  "map_option inStock (products shop 2) = Some True
   \<and> map_option inStock (products (handle (RemoveStock 2 5 ''damaged'') shop) 2) = Some False
   \<and> (\<exists>p'. products (handle (RemoveStock 2 5 ''damaged'') shop) 2 = Some p'
          \<and> inStock p' = (0 < stockCount p'))"
proof -
  have changed: "products (handle (RemoveStock 2 5 ''damaged'') shop) 2 \<noteq> products shop 2"
    and flags: "map_option inStock (products shop 2) = Some True"
      "map_option inStock (products (handle (RemoveStock 2 5 ''damaged'') shop) 2) = Some False"
    by (simp_all add: remove_stock_def sample_defs)
  with inStock_follows_stockCount [of 2 "the (products shop 2)" shop "RemoveStock 2 5 ''damaged''" 2]
  show ?thesis by simp
qed

end
